theory Spec2Isabelle
  imports Complex_Main "HOL-Library.Multiset"
begin

section \<open>Grids and the array operations the modules rely on\<close>

text \<open>
  The modules work on two-dimensional numpy arrays. An array is modelled as its shape and
  its cells in row-major order; cell \<open>(i, j)\<close> is at position \<open>i * ncols + j\<close>.
  float64 values are modelled by exact reals: the sources compare cells with constants
  and divide counts, and the claims are about these comparisons and quotients.
\<close>

datatype py_error = ValueError | IndexError | KeyError

record 'a grid =
  nrows :: nat
  ncols :: nat
  cells :: "'a list"

definition wf_grid :: "'a grid \<Rightarrow> bool" where
  "wf_grid g = (length (cells g) = nrows g * ncols g)"

definition shape :: "'a grid \<Rightarrow> nat \<times> nat" where
  "shape g = (nrows g, ncols g)"

definition cell :: "'a grid \<Rightarrow> nat \<Rightarrow> nat \<Rightarrow> 'a" where
  "cell g i j = cells g ! (i * ncols g + j)"

definition bind_err :: "py_error + 'a \<Rightarrow> ('a \<Rightarrow> py_error + 'b) \<Rightarrow> py_error + 'b" where
  "bind_err r f = (case r of Inl e \<Rightarrow> Inl e | Inr x \<Rightarrow> f x)"

text \<open>\<open>np.zeros_like(a)\<close>: same shape, every cell \<open>z\<close>.\<close>

definition zeros_like :: "'a grid \<Rightarrow> 'b \<Rightarrow> 'b grid" where
  "zeros_like a z = \<lparr>nrows = nrows a, ncols = ncols a, cells = map (\<lambda>_. z) (cells a)\<rparr>"

text \<open>An array against a scalar (\<open>a < 20\<close>, \<open>a >= 2\<close>): cell by cell, same shape.\<close>

definition np_map :: "('a \<Rightarrow> 'b) \<Rightarrow> 'a grid \<Rightarrow> 'b grid" where
  "np_map f a = \<lparr>nrows = nrows a, ncols = ncols a, cells = map f (cells a)\<rparr>"

text \<open>
  numpy's broadcasting rule for one axis: equal lengths agree, a length of 1 is stretched
  to the other length, anything else is the \<open>ValueError\<close> "operands could not be
  broadcast together".
\<close>

definition bdim :: "nat \<Rightarrow> nat \<Rightarrow> nat option" where
  "bdim a b = (if a = b then Some a else if a = 1 then Some b else if b = 1 then Some a else None)"

definition bat :: "'a grid \<Rightarrow> nat \<Rightarrow> nat \<Rightarrow> 'a" where
  "bat g i j = cell g (if nrows g = 1 then 0 else i) (if ncols g = 1 then 0 else j)"

text \<open>An array against an array (\<open>a & b\<close>, \<open>a | b\<close>): cell by cell after broadcasting.\<close>

definition np_binop :: "('a \<Rightarrow> 'b \<Rightarrow> 'c) \<Rightarrow> 'a grid \<Rightarrow> 'b grid \<Rightarrow> py_error + 'c grid" where
  "np_binop f a b =
     (case (bdim (nrows a) (nrows b), bdim (ncols a) (ncols b)) of
        (Some r, Some c) \<Rightarrow>
          Inr \<lparr>nrows = r, ncols = c,
               cells = concat (map (\<lambda>i. map (\<lambda>j. f (bat a i j) (bat b i j)) [0..<c]) [0..<r])\<rparr>
      | _ \<Rightarrow> Inl ValueError)"

text \<open>
  \<open>target[mask] = v\<close> with a boolean mask. With a mask of the target's shape the cells
  under a true mask cell become \<open>v\<close>. Otherwise numpy compares the mask with the target
  axis by axis and raises \<open>IndexError\<close> for an axis of different length, except that an
  axis of the mask of length 0 is not compared; a mask that passes this way has no cell,
  and nothing is assigned.
\<close>

definition mask_assign :: "'a grid \<Rightarrow> bool grid \<Rightarrow> 'a \<Rightarrow> py_error + 'a grid" where
  "mask_assign target msk v =
     (if shape msk = shape target
      then Inr (target\<lparr>cells := map2 (\<lambda>m x. if m then v else x) (cells msk) (cells target)\<rparr>)
      else if (nrows msk \<noteq> 0 \<and> nrows msk \<noteq> nrows target) \<or>
              (ncols msk \<noteq> 0 \<and> ncols msk \<noteq> ncols target)
      then Inl IndexError
      else Inr target)"

section \<open>biophysical\_constraints\<close>

record drainage_result =
  drainage_class :: "nat grid"
  percolation_rate :: "real grid"

text \<open>
  \<open>classify_drainage\<close>: both outputs start at zero; the four masks are computed from the
  inputs and assigned one after the other, so a later assignment overwrites an earlier one.
\<close>

definition classify_drainage :: "real grid \<Rightarrow> real grid \<Rightarrow> py_error + drainage_result" where
  "classify_drainage clay_pct sand_pct =
     (let dc0 = zeros_like clay_pct (0::nat);
          pr0 = zeros_like clay_pct (0::real)
      in
      bind_err (np_binop (\<and>) (np_map (\<lambda>c. c < 20) clay_pct) (np_map (\<lambda>s. s > 60) sand_pct)) (\<lambda>well.
      bind_err (mask_assign dc0 well 1) (\<lambda>dc1.
      bind_err (mask_assign pr0 well 12) (\<lambda>pr1.
      bind_err (np_binop (\<or>) (np_map (\<lambda>c. c \<ge> 20 \<and> c < 35) clay_pct)
                              (np_map (\<lambda>s. s \<ge> 30 \<and> s \<le> 60) sand_pct)) (\<lambda>mod_mask.
      bind_err (mask_assign dc1 mod_mask 2) (\<lambda>dc2.
      bind_err (mask_assign pr1 mod_mask 8) (\<lambda>pr2.
      (let imperf = np_map (\<lambda>c. c \<ge> 35 \<and> c < 50) clay_pct in
      bind_err (mask_assign dc2 imperf 3) (\<lambda>dc3.
      bind_err (mask_assign pr2 imperf 4) (\<lambda>pr3.
      (let poor = np_map (\<lambda>c. c \<ge> 50) clay_pct in
      bind_err (mask_assign dc3 poor 4) (\<lambda>dc4.
      bind_err (mask_assign pr3 poor 3) (\<lambda>pr4.
      Inr \<lparr>drainage_class = dc4, percolation_rate = pr4\<rparr>)))))))))))))"

text \<open>
  The four rules are applied in the order 1, 2, 3, 4 and each assignment overwrites, so
  among the rules that match a cell the last one decides. \<open>last_match_rule\<close> is the
  class of that rule, \<open>None\<close> when no rule matches.
\<close>

definition last_match_rule :: "real \<Rightarrow> real \<Rightarrow> nat option" where
  "last_match_rule clay sand =
     (if clay \<ge> 50 then Some 4
      else if clay \<ge> 35 \<and> clay < 50 then Some 3
      else if (clay \<ge> 20 \<and> clay < 35) \<or> (sand \<ge> 30 \<and> sand \<le> 60) then Some 2
      else if clay < 20 \<and> sand > 60 then Some 1
      else None)"

text \<open>
  What a cell of \<open>drainage_class\<close> holds after the four assignments: the class of the last
  matching rule, or the initial 0 of \<open>np.zeros_like\<close> when no assignment touched it.
\<close>

definition last_match_class :: "real \<Rightarrow> real \<Rightarrow> nat" where
  "last_match_class clay sand =
     (case last_match_rule clay sand of None \<Rightarrow> 0 | Some k \<Rightarrow> k)"

text \<open>
  The cascade as the specification words it: the first rule that matches wins. \<open>None\<close>
  stands for a cell that no rule matches.
\<close>

definition first_match_class :: "real \<Rightarrow> real \<Rightarrow> nat option" where
  "first_match_class clay sand =
     (if clay < 20 \<and> sand > 60 then Some 1
      else if (clay \<ge> 20 \<and> clay < 35) \<or> (sand \<ge> 30 \<and> sand \<le> 60) then Some 2
      else if clay \<ge> 35 \<and> clay < 50 then Some 3
      else if clay \<ge> 50 then Some 4
      else None)"

definition percolation_of_class :: "nat \<Rightarrow> real" where
  "percolation_of_class k =
     (if k = 1 then 12 else if k = 2 then 8 else if k = 3 then 4 else if k = 4 then 3 else 0)"

text \<open>
  \<open>compute_biophysical_suitability\<close>:
  \<^verbatim>\<open>slope_feasible & (drainage_class <= drainage_threshold) & (water_balance_suitability >= 2)\<close>.
  The source has no shape check of its own; what happens to grids of different shapes is
  what numpy's \<open>&\<close> does with them. Logging is left out.
\<close>

definition compute_biophysical_suitability ::
  "bool grid \<Rightarrow> int grid \<Rightarrow> int grid \<Rightarrow> int \<Rightarrow> py_error + bool grid" where
  "compute_biophysical_suitability slope_feasible drainage_cls water_balance_suitability
       drainage_threshold =
     bind_err (np_binop (\<and>) slope_feasible (np_map (\<lambda>d. d \<le> drainage_threshold) drainage_cls))
       (\<lambda>t. np_binop (\<and>) t (np_map (\<lambda>w. w \<ge> 2) water_balance_suitability))"

text \<open>
  Three axis lengths clash when two of them differ and neither of the two is 1: the
  shapes numpy cannot broadcast.
\<close>

definition axis_clash :: "nat \<Rightarrow> nat \<Rightarrow> nat \<Rightarrow> bool" where
  "axis_clash a b c =
     ((a \<noteq> b \<and> a \<noteq> 1 \<and> b \<noteq> 1) \<or> (a \<noteq> c \<and> a \<noteq> 1 \<and> c \<noteq> 1) \<or> (b \<noteq> c \<and> b \<noteq> 1 \<and> c \<noteq> 1))"

section \<open>water\_balance\<close>

definition compute_water_balance_dekad :: "real \<Rightarrow> real \<Rightarrow> real \<Rightarrow> real" where
  "compute_water_balance_dekad rainfall_mm pet_mm percolation_mm =
     rainfall_mm - (pet_mm + percolation_mm)"

definition assess_awd_suitability_dekad :: "real \<Rightarrow> real \<Rightarrow> bool" where
  "assess_awd_suitability_dekad water_balance_mm deficit_threshold_mm =
     (water_balance_mm < 0 \<and> water_balance_mm \<ge> deficit_threshold_mm)"

text \<open>
  Python's \<open>xs[start:stop]\<close>: a negative bound counts from the end, and both bounds are
  clipped to the sequence.
\<close>

definition py_slice :: "'a list \<Rightarrow> int \<Rightarrow> int \<Rightarrow> 'a list" where
  "py_slice xs start stop =
     (let n = int (length xs);
          s = (if start < 0 then max (start + n) 0 else min start n);
          e = (if stop < 0 then max (stop + n) 0 else min stop n)
      in take (nat (e - s)) (drop (nat s) xs))"

text \<open>
  \<open>compute_awd_suitability_index\<close> returns the triple
  \<open>(fraction_suitable, num_suitable, num_total)\<close>; the model pairs it with the warnings
  the call logs. The defaults \<open>exclude_first = 2\<close>, \<open>exclude_last = 1\<close> and
  \<open>deficit_threshold_mm = -50\<close> are arguments here.
\<close>

definition compute_awd_suitability_index ::
  "real list \<Rightarrow> int \<Rightarrow> int \<Rightarrow> int \<Rightarrow> int \<Rightarrow> real \<Rightarrow> (real \<times> nat \<times> nat) \<times> string list" where
  "compute_awd_suitability_index water_balance_series season_start_dekad season_end_dekad
       exclude_first exclude_last deficit_threshold_mm =
     (let active_start = season_start_dekad + exclude_first;
          active_end = season_end_dekad - exclude_last
      in
      if active_start \<ge> active_end
      then ((0, 0, 0), [''Active season window too small after exclusions''])
      else
        (let active_dekads = py_slice water_balance_series active_start (active_end + 1);
             suitable = map (\<lambda>wb. assess_awd_suitability_dekad wb deficit_threshold_mm)
                          active_dekads;
             num_suitable = length (filter (\<lambda>b. b) suitable);
             num_total = length active_dekads;
             fraction_suitable =
               (if num_total > 0 then real num_suitable / real num_total else 0)
         in ((fraction_suitable, num_suitable, num_total), [])))"

definition classify_suitability_from_fraction :: "real \<Rightarrow> real \<Rightarrow> real \<Rightarrow> nat" where
  "classify_suitability_from_fraction fraction_suitable high_threshold moderate_threshold =
     (if fraction_suitable \<ge> high_threshold then 3
      else if fraction_suitable \<ge> moderate_threshold then 2
      else 1)"

section \<open>utils\<close>

text \<open>
  \<open>classify_awd_suitability\<close> takes the thresholds as an optional dictionary; a missing
  key is Python's \<open>KeyError\<close>, raised when the key is read.
\<close>

definition default_thresholds :: "string \<rightharpoonup> real" where
  "default_thresholds = [''high'' \<mapsto> 66 / 100, ''moderate'' \<mapsto> 33 / 100]"

definition classify_awd_suitability ::
  "real \<Rightarrow> (string \<rightharpoonup> real) option \<Rightarrow> py_error + nat" where
  "classify_awd_suitability fraction_suitable thresholds =
     (if \<not> (0 \<le> fraction_suitable \<and> fraction_suitable \<le> 1) then Inl ValueError
      else
        (let th = (case thresholds of None \<Rightarrow> default_thresholds | Some t \<Rightarrow> t) in
         case th ''high'' of
           None \<Rightarrow> Inl KeyError
         | Some high \<Rightarrow>
             if fraction_suitable \<ge> high then Inr 3
             else (case th ''moderate'' of
                     None \<Rightarrow> Inl KeyError
                   | Some moderate \<Rightarrow> if fraction_suitable \<ge> moderate then Inr 2 else Inr 1)))"

section \<open>spatial\_analysis\<close>

text \<open>
  Both patch functions start from \<open>scipy.ndimage.label\<close>, which is not part of the
  repository: it returns the grid of component labels (0 for background, \<open>1..n\<close> for the
  components) and the number \<open>n\<close> of components. The model takes it as the argument
  \<open>label\<close>. What the functions need from it is collected in \<open>label_post\<close>: every
  label is at most \<open>n\<close>, and every label \<open>1..n\<close> marks at least one cell.
\<close>

definition label_post :: "nat grid \<Rightarrow> nat \<Rightarrow> bool" where
  "label_post labeled_array n =
     (wf_grid labeled_array \<and>
      (\<forall>v \<in> set (cells labeled_array). v \<le> n) \<and>
      (\<forall>k \<in> {1..n}. k \<in> set (cells labeled_array)))"

text \<open>
  \<open>np.bincount(xs)\<close>: how often each value \<open>0..max xs\<close> occurs; empty for an empty
  input.
\<close>

definition bincount :: "nat list \<Rightarrow> nat list" where
  "bincount xs = (if xs = [] then [] else map (count_list xs) [0..<Suc (Max (set xs))])"

record frag_result =
  n_patches :: nat
  mean_patch_size :: real
  max_patch_size :: nat
  min_patch_size :: nat
  fragmentation_index :: real
  total_suitable_cells :: nat

definition patch_sizes_of :: "nat grid \<Rightarrow> nat list" where
  "patch_sizes_of labeled_array = drop 1 (bincount (cells labeled_array))"

text \<open>
  \<open>compute_fragmentation_index\<close>. \<open>max()\<close> and \<open>min()\<close> of an empty array raise
  \<open>ValueError\<close>, which is the first branch after the early return.
\<close>

definition compute_fragmentation_index ::
  "('a grid \<Rightarrow> nat grid \<times> nat) \<Rightarrow> 'a grid \<Rightarrow> py_error + frag_result" where
  "compute_fragmentation_index label suitability_map =
     (case label suitability_map of (labeled_array, n) \<Rightarrow>
        if n = 0
        then Inr \<lparr>n_patches = 0, mean_patch_size = 0, max_patch_size = 0, min_patch_size = 0,
                  fragmentation_index = 0, total_suitable_cells = 0\<rparr>
        else
          (let patch_sizes = patch_sizes_of labeled_array in
           if patch_sizes = [] then Inl ValueError
           else
             (let mean_size = real (sum_list patch_sizes) / real (length patch_sizes);
                  max_size = Max (set patch_sizes);
                  min_size = Min (set patch_sizes);
                  frag = (if max_size > 0 then mean_size / real max_size else 0)
              in Inr \<lparr>n_patches = n, mean_patch_size = mean_size, max_patch_size = max_size,
                      min_patch_size = min_size, fragmentation_index = frag,
                      total_suitable_cells = sum_list patch_sizes\<rparr>)))"

definition estimate_extension_cost :: "real \<Rightarrow> real \<Rightarrow> real \<Rightarrow> real" where
  "estimate_extension_cost frag_index total_suitable_area_km2 base_cost_per_km2 =
     (let cost_multiplier = 1 + 3.8 * frag_index
      in total_suitable_area_km2 * base_cost_per_km2 * cost_multiplier)"

record cluster_row =
  cluster_id :: nat
  size_pixels :: nat
  min_row :: nat
  max_row :: nat
  min_col :: nat
  max_col :: nat
  extent_rows :: nat
  extent_cols :: nat

text \<open>\<open>np.where(labeled_array == cluster_id)\<close>: the row and column of every matching cell.\<close>

definition where_eq :: "nat grid \<Rightarrow> nat \<Rightarrow> (nat \<times> nat) list" where
  "where_eq labeled_array k =
     map (\<lambda>p. (p div ncols labeled_array, p mod ncols labeled_array))
       (filter (\<lambda>p. cells labeled_array ! p = k) [0..<length (cells labeled_array)])"

text \<open>
  The dictionary appended for one cluster: its id, its size, the bounding box of its
  positions and the extents \<open>max - min\<close>.
\<close>

definition cluster_entry :: "nat \<Rightarrow> nat \<Rightarrow> (nat \<times> nat) list \<Rightarrow> cluster_row" where
  "cluster_entry cid cluster_size positions =
     (let r0 = Min (set (map fst positions)); r1 = Max (set (map fst positions));
          c0 = Min (set (map snd positions)); c1 = Max (set (map snd positions))
      in \<lparr>cluster_id = cid, size_pixels = cluster_size,
          min_row = r0, max_row = r1, min_col = c0, max_col = c1,
          extent_rows = r1 - r0, extent_cols = c1 - c0\<rparr>)"

text \<open>
  The loop over \<open>range(1, n_clusters + 1)\<close>: a cluster below \<open>min_cluster_size\<close> is
  skipped, any other appends one row. \<open>min()\<close> of no positions raises \<open>ValueError\<close>.
\<close>

fun cluster_loop ::
  "nat grid \<Rightarrow> int \<Rightarrow> nat list \<Rightarrow> cluster_row list \<Rightarrow> py_error + cluster_row list" where
  "cluster_loop labeled_array min_cluster_size [] results = Inr results"
| "cluster_loop labeled_array min_cluster_size (cid # ids) results =
     (let cluster_size = count_list (cells labeled_array) cid in
      if int cluster_size < min_cluster_size
      then cluster_loop labeled_array min_cluster_size ids results
      else
        (let positions = where_eq labeled_array cid in
         if positions = [] then Inl ValueError
         else cluster_loop labeled_array min_cluster_size ids
                (results @ [cluster_entry cid cluster_size positions])))"

text \<open>
  \<open>pd.DataFrame(results)\<close> takes its columns from the dictionaries in \<open>results\<close>: no
  rows, no columns. \<open>sort_values\<close> raises \<open>KeyError\<close> for a column the frame does not
  have. Otherwise it orders the rows by descending \<open>size_pixels\<close>; the default sort of
  pandas (numpy's quicksort) does not fix the order among rows of equal size, so the
  ordering is the argument \<open>sort_desc\<close>, and \<open>sorts_by_size_desc\<close> says what is known of
  it: the result is a permutation of the rows, in descending order of size.
\<close>

record data_frame =
  columns :: "string list"
  table_rows :: "cluster_row list"

definition cluster_columns :: "string list" where
  "cluster_columns = [''cluster_id'', ''size_pixels'', ''min_row'', ''max_row'',
                      ''min_col'', ''max_col'', ''extent_rows'', ''extent_cols'']"

definition DataFrame :: "cluster_row list \<Rightarrow> data_frame" where
  "DataFrame results =
     \<lparr>columns = (if results = [] then [] else cluster_columns), table_rows = results\<rparr>"

definition sorts_by_size_desc ::
  "(cluster_row list \<Rightarrow> cluster_row list) \<Rightarrow> cluster_row list \<Rightarrow> bool" where
  "sorts_by_size_desc sort_desc results =
     (mset (sort_desc results) = mset results \<and>
      sorted (rev (map size_pixels (sort_desc results))))"

definition sort_values_size_desc ::
  "(cluster_row list \<Rightarrow> cluster_row list) \<Rightarrow> data_frame \<Rightarrow> py_error + data_frame" where
  "sort_values_size_desc sort_desc df =
     (if ''size_pixels'' \<notin> set (columns df) then Inl KeyError
      else Inr (df\<lparr>table_rows := sort_desc (table_rows df)\<rparr>))"

definition identify_suitability_clusters ::
  "('a grid \<Rightarrow> nat grid \<times> nat) \<Rightarrow> (cluster_row list \<Rightarrow> cluster_row list) \<Rightarrow>
     'a grid \<Rightarrow> int \<Rightarrow> py_error + data_frame" where
  "identify_suitability_clusters label sort_desc suitability_map min_cluster_size =
     (case label suitability_map of (labeled_array, n_clusters) \<Rightarrow>
        bind_err (cluster_loop labeled_array min_cluster_size [1..<Suc n_clusters] [])
          (\<lambda>results. sort_values_size_desc sort_desc (DataFrame results)))"

section \<open>Array operations and drainage classification\<close>

lemma length_concat_rows:
  "length (concat (map (\<lambda>i. map (f i) [0..<c]) [0..<r])) = r * c"
  by (induction r) simp_all

lemma idx_lt: "i < r \<Longrightarrow> j < c \<Longrightarrow> i * c + j < r * (c::nat)"
proof -
  assume a: "i < r" "j < c"
  then have "i * c + j < i * c + c" by simp
  also have "\<dots> = Suc i * c" by simp
  also have "\<dots> \<le> r * c" using a(1) by (intro mult_le_mono1) simp
  finally show ?thesis .
qed

lemma concat_rows_nth:
  "i < r \<Longrightarrow> j < c \<Longrightarrow> concat (map (\<lambda>i. map (f i) [0..<c]) [0..<r]) ! (i * c + j) = f i j"
proof (induction r)
  case 0
  then show ?case by simp
next
  case (Suc r)
  show ?case
  proof (cases "i < r")
    case True
    then have "i * c + j < r * c" using Suc.prems(2) by (rule idx_lt)
    then show ?thesis using Suc.IH [OF True Suc.prems(2)]
      by (simp add: nth_append length_concat_rows)
  next
    case False
    then have "i = r" using Suc.prems(1) by simp
    then show ?thesis using Suc.prems(2)
      by (simp add: nth_append length_concat_rows)
  qed
qed

lemma concat_rows_flat:
  assumes "length xs = r * c"
  shows "concat (map (\<lambda>i. map (\<lambda>j. g (xs ! (i * c + j))) [0..<c]) [0..<r]) = map g xs"
proof (rule nth_equalityI)
  show "length (concat (map (\<lambda>i. map (\<lambda>j. g (xs ! (i * c + j))) [0..<c]) [0..<r])) = length (map g xs)"
    using assms by (simp add: length_concat_rows)
next
  fix k assume "k < length (concat (map (\<lambda>i. map (\<lambda>j. g (xs ! (i * c + j))) [0..<c]) [0..<r]))"
  then have k: "k < r * c" by (simp add: length_concat_rows)
  then have c: "0 < c" by (cases c) simp_all
  have d: "k div c < r" using k c by (simp add: less_mult_imp_div_less)
  have m: "k mod c < c" using c by simp
  have e: "k div c * c + k mod c = k" by simp
  from concat_rows_nth [OF d m, of "\<lambda>i j. g (xs ! (i * c + j))"]
  show "concat (map (\<lambda>i. map (\<lambda>j. g (xs ! (i * c + j))) [0..<c]) [0..<r]) ! k = map g xs ! k"
    using k assms by (simp add: e)
qed

lemma np_binop_same_shape:
  assumes "wf_grid a" "wf_grid b" "nrows b = nrows a" "ncols b = ncols a"
  shows "np_binop f a b = Inr \<lparr>nrows = nrows a, ncols = ncols a, cells = map2 f (cells a) (cells b)\<rparr>"
proof -
  let ?r = "nrows a" and ?c = "ncols a"
  have sb: "nrows b = ?r" "ncols b = ?c" using assms(3,4) by simp_all
  have la: "length (cells a) = ?r * ?c" and lb: "length (cells b) = ?r * ?c"
    using assms(1,2) sb by (simp_all add: wf_grid_def)
  have "concat (map (\<lambda>i. map (\<lambda>j. f (bat a i j) (bat b i j)) [0..<?c]) [0..<?r])
        = concat (map (\<lambda>i. map (\<lambda>j. (\<lambda>(x, y). f x y) (zip (cells a) (cells b) ! (i * ?c + j))) [0..<?c]) [0..<?r])"
  proof (rule arg_cong [where f = concat], rule map_cong [OF refl], rule map_cong [OF refl])
    fix i j assume "i \<in> set [0..<?r]" "j \<in> set [0..<?c]"
    then have ij: "i < ?r" "j < ?c" by simp_all
    then have k: "i * ?c + j < ?r * ?c" by (rule idx_lt)
    have i0: "?r = 1 \<Longrightarrow> i = 0" and j0: "?c = 1 \<Longrightarrow> j = 0" using ij by simp_all
    show "f (bat a i j) (bat b i j) = (\<lambda>(x, y). f x y) (zip (cells a) (cells b) ! (i * ?c + j))"
      using k la lb i0 j0 by (auto simp add: bat_def cell_def sb)
  qed
  also have "\<dots> = map (\<lambda>(x, y). f x y) (zip (cells a) (cells b))"
    by (rule concat_rows_flat) (simp add: la lb)
  finally show ?thesis by (simp add: np_binop_def bdim_def sb)
qed


lemma wf_np_map [simp]: "wf_grid (np_map f g) = wf_grid g"
  by (simp add: wf_grid_def np_map_def)

lemma shape_np_map [simp]: "shape (np_map f g) = shape g"
  by (simp add: shape_def np_map_def)

lemma cells_np_map [simp]: "cells (np_map f g) = map f (cells g)"
  by (simp add: np_map_def)

lemma nrows_np_map [simp]: "nrows (np_map f g) = nrows g"
  by (simp add: np_map_def)

lemma ncols_np_map [simp]: "ncols (np_map f g) = ncols g"
  by (simp add: np_map_def)

lemma classify_drainage_same_shape:
  assumes "wf_grid clay" "wf_grid sand" "shape clay = shape sand"
  shows "classify_drainage clay sand =
           Inr \<lparr>drainage_class =
                  \<lparr>nrows = nrows clay, ncols = ncols clay,
                   cells = map2 last_match_class (cells clay) (cells sand)\<rparr>,
                percolation_rate =
                  \<lparr>nrows = nrows clay, ncols = ncols clay,
                   cells = map2 (\<lambda>c s. percolation_of_class (last_match_class c s))
                             (cells clay) (cells sand)\<rparr>\<rparr>"
proof -
  have len: "length (cells sand) = length (cells clay)"
    using assms by (simp add: wf_grid_def shape_def)
  have sb: "nrows sand = nrows clay" "ncols sand = ncols clay"
    using assms(3) by (simp_all add: shape_def)
  show ?thesis
    unfolding classify_drainage_def Let_def
    apply (simp add: np_binop_same_shape assms(1,2) sb bind_err_def mask_assign_def shape_def
        zeros_like_def)
    apply (intro conjI nth_equalityI)
       apply (simp_all add: len last_match_class_def last_match_rule_def percolation_of_class_def)
    done
qed


lemma last_match_class_range: "last_match_class c s \<in> {0, 1, 2, 3, 4}"
  by (simp add: last_match_class_def last_match_rule_def)

lemma percolation_follows_class:
  "(last_match_class c s = 1 \<and> percolation_of_class (last_match_class c s) = 12) \<or>
   (last_match_class c s = 2 \<and> percolation_of_class (last_match_class c s) = 8) \<or>
   (last_match_class c s = 3 \<and> percolation_of_class (last_match_class c s) = 4) \<or>
   (last_match_class c s = 4 \<and> percolation_of_class (last_match_class c s) = 3) \<or>
   (last_match_class c s = 0 \<and> percolation_of_class (last_match_class c s) = 0)"
  by (simp add: last_match_class_def last_match_rule_def percolation_of_class_def)

lemma no_rule_class_zero: "first_match_class c s = None \<Longrightarrow> last_match_class c s = 0"
  by (simp add: last_match_class_def last_match_rule_def first_match_class_def split: if_splits)

lemma classify_drainage_cells:
  assumes "wf_grid clay" "wf_grid sand" "shape clay = shape sand"
  shows "\<exists>res. classify_drainage clay sand = Inr res \<and>
           shape (drainage_class res) = shape clay \<and>
           shape (percolation_rate res) = shape clay \<and>
           (\<forall>i < nrows clay. \<forall>j < ncols clay.
              cell (drainage_class res) i j = last_match_class (cell clay i j) (cell sand i j) \<and>
              cell (percolation_rate res) i j =
                percolation_of_class (last_match_class (cell clay i j) (cell sand i j)))"
proof -
  have sb: "ncols sand = ncols clay" using assms(3) by (simp add: shape_def)
  have len: "length (cells clay) = nrows clay * ncols clay"
            "length (cells sand) = nrows clay * ncols clay"
    using assms by (simp_all add: wf_grid_def shape_def)
  let ?dc = "\<lparr>nrows = nrows clay, ncols = ncols clay,
              cells = map2 last_match_class (cells clay) (cells sand)\<rparr>"
  let ?pr = "\<lparr>nrows = nrows clay, ncols = ncols clay,
              cells = map2 (\<lambda>c s. percolation_of_class (last_match_class c s))
                        (cells clay) (cells sand)\<rparr>"
  have "\<forall>i < nrows clay. \<forall>j < ncols clay.
          cell ?dc i j = last_match_class (cell clay i j) (cell sand i j) \<and>
          cell ?pr i j = percolation_of_class (last_match_class (cell clay i j) (cell sand i j))"
  proof (intro allI impI)
    fix i j assume "i < nrows clay" "j < ncols clay"
    then have "i * ncols clay + j < nrows clay * ncols clay" by (rule idx_lt)
    then show "cell ?dc i j = last_match_class (cell clay i j) (cell sand i j) \<and>
               cell ?pr i j = percolation_of_class (last_match_class (cell clay i j) (cell sand i j))"
      by (simp add: cell_def len sb)
  qed
  then show ?thesis
    unfolding classify_drainage_same_shape [OF assms] by (simp add: shape_def)
qed

text \<open>
  Grids of different shapes: a sand grid with no rows gives masks without cells, which
  assign nothing, so the classes come from the clay-only rules; a clay grid smaller than
  the sand grid gives a mask larger than the outputs, and the first assignment raises
  \<open>IndexError\<close>.
\<close>

lemma classify_drainage_other_shapes:
  "classify_drainage \<lparr>nrows = 1, ncols = 2, cells = [60, 40]\<rparr> \<lparr>nrows = 0, ncols = 2, cells = []\<rparr>
     = Inr \<lparr>drainage_class = \<lparr>nrows = 1, ncols = 2, cells = [4, 3]\<rparr>,
            percolation_rate = \<lparr>nrows = 1, ncols = 2, cells = [3, 4]\<rparr>\<rparr>"
  "classify_drainage \<lparr>nrows = 1, ncols = 1, cells = [60]\<rparr>
                     \<lparr>nrows = 2, ncols = 2, cells = [10, 20, 30, 40]\<rparr> = Inl IndexError"
  by (simp_all add: classify_drainage_def np_binop_def bdim_def bat_def cell_def bind_err_def
      mask_assign_def shape_def zeros_like_def np_map_def eval_nat_numeral)

lemma last_match_rule_range: "last_match_rule c s = Some k \<Longrightarrow> k \<in> {1, 2, 3, 4}"
  by (auto simp add: last_match_rule_def split: if_splits)

text \<open>
  Claim C1, as amended. For co-registered grids (one shape) \<open>classify_drainage\<close> returns a
  class grid of that shape, and every cell that at least one of the four rules matches
  holds exactly one class out of 1, 2, 3, 4: the class of the last rule, in the order
  1, 2, 3, 4, that matches the cell (4 for clay at least 50; else 3 for clay in [35, 50);
  else 2 for clay in [20, 35) or sand in [30, 60]; else 1 for clay below 20 and sand above
  60). Nothing is stated about a cell that no rule matches.
\<close>

theorem classify_drainage_last_match:
  assumes "wf_grid clay" "wf_grid sand" "shape clay = shape sand"
  shows "\<exists>res. classify_drainage clay sand = Inr res \<and>
           shape (drainage_class res) = shape clay \<and>
           (\<forall>i < nrows clay. \<forall>j < ncols clay. \<forall>k.
              last_match_rule (cell clay i j) (cell sand i j) = Some k \<longrightarrow>
                cell (drainage_class res) i j = k \<and> k \<in> {1, 2, 3, 4})"
proof -
  from classify_drainage_cells [OF assms] obtain res where
    r: "classify_drainage clay sand = Inr res" "shape (drainage_class res) = shape clay" and
    c: "\<forall>i < nrows clay. \<forall>j < ncols clay.
          cell (drainage_class res) i j = last_match_class (cell clay i j) (cell sand i j)"
    by blast
  have "\<forall>i < nrows clay. \<forall>j < ncols clay. \<forall>k.
          last_match_rule (cell clay i j) (cell sand i j) = Some k \<longrightarrow>
            cell (drainage_class res) i j = k \<and> k \<in> {1, 2, 3, 4}"
  proof (intro allI impI)
    fix i j k
    assume ij: "i < nrows clay" "j < ncols clay"
      and k: "last_match_rule (cell clay i j) (cell sand i j) = Some k"
    from c ij have "cell (drainage_class res) i j
                      = last_match_class (cell clay i j) (cell sand i j)"
      by simp
    also have "\<dots> = k" by (simp add: last_match_class_def k)
    finally show "cell (drainage_class res) i j = k \<and> k \<in> {1, 2, 3, 4}"
      using last_match_rule_range [OF k] by simp
  qed
  with r show ?thesis by blast
qed

text \<open>
  The theorem at a 1 by 2 grid: a cell that only rule 1 matches, and a cell that rule 2
  (sand 45) and rule 4 (clay 60) match, which ends with class 4.
\<close>

theorem classify_drainage_last_match_witness:
  "\<exists>res. classify_drainage \<lparr>nrows = 1, ncols = 2, cells = [10, 60]\<rparr>
                            \<lparr>nrows = 1, ncols = 2, cells = [70, 45]\<rparr> = Inr res \<and>
         cell (drainage_class res) 0 0 = 1 \<and> cell (drainage_class res) 0 1 = 4"
proof -
  let ?clay = "\<lparr>nrows = 1, ncols = 2, cells = [10, 60 :: real]\<rparr>"
  let ?sand = "\<lparr>nrows = 1, ncols = 2, cells = [70, 45 :: real]\<rparr>"
  have "wf_grid ?clay" "wf_grid ?sand" "shape ?clay = shape ?sand"
    by (simp_all add: wf_grid_def shape_def)
  from classify_drainage_last_match [OF this] obtain res where
    r: "classify_drainage ?clay ?sand = Inr res" and
    c: "\<forall>i < nrows ?clay. \<forall>j < ncols ?clay. \<forall>k.
          last_match_rule (cell ?clay i j) (cell ?sand i j) = Some k \<longrightarrow>
            cell (drainage_class res) i j = k \<and> k \<in> {1, 2, 3, 4}"
    by blast
  from c [rule_format, of 0 0 1] c [rule_format, of 0 1 4]
  have "cell (drainage_class res) 0 0 = 1 \<and> cell (drainage_class res) 0 1 = 4"
    by (simp add: cell_def last_match_rule_def)
  with r show ?thesis by blast
qed

text \<open>
  Claim C1 as stated fails, with percentages between 0 and 100: the cell with clay 40 and
  sand 40 is matched by rule 2 (sand in [30, 60]) and by rule 3 (clay in [35, 50)); the
  first match is 2, the function returns 3, the class its comment gives to clay 35-50.
\<close>

theorem classify_drainage_first_match_counterexample:
  "classify_drainage \<lparr>nrows = 1, ncols = 1, cells = [40]\<rparr>
                     \<lparr>nrows = 1, ncols = 1, cells = [40]\<rparr>
     = Inr \<lparr>drainage_class = \<lparr>nrows = 1, ncols = 1, cells = [3]\<rparr>,
            percolation_rate = \<lparr>nrows = 1, ncols = 1, cells = [4]\<rparr>\<rparr>
   \<and> first_match_class 40 40 = Some 2"
  by (simp add: classify_drainage_same_shape wf_grid_def shape_def last_match_class_def
      last_match_rule_def percolation_of_class_def first_match_class_def)

text \<open>
  Claim C10. For grids of one shape the two outputs of \<open>classify_drainage\<close> have that
  shape and agree on every cell: class 1 goes with rate 12, class 2 with 8, class 3 with 4,
  class 4 with 3 and class 0 with 0; a cell that no rule matches has class 0 and rate 0.
\<close>

theorem classify_drainage_percolation_consistent:
  assumes "wf_grid clay" "wf_grid sand" "shape clay = shape sand"
  shows "\<exists>res. classify_drainage clay sand = Inr res \<and>
           shape (drainage_class res) = shape clay \<and>
           shape (percolation_rate res) = shape (drainage_class res) \<and>
           (\<forall>i < nrows clay. \<forall>j < ncols clay.
              ((cell (drainage_class res) i j = 1 \<and> cell (percolation_rate res) i j = 12) \<or>
               (cell (drainage_class res) i j = 2 \<and> cell (percolation_rate res) i j = 8) \<or>
               (cell (drainage_class res) i j = 3 \<and> cell (percolation_rate res) i j = 4) \<or>
               (cell (drainage_class res) i j = 4 \<and> cell (percolation_rate res) i j = 3) \<or>
               (cell (drainage_class res) i j = 0 \<and> cell (percolation_rate res) i j = 0)) \<and>
              (first_match_class (cell clay i j) (cell sand i j) = None \<longrightarrow>
                 cell (drainage_class res) i j = 0 \<and> cell (percolation_rate res) i j = 0))"
proof -
  from classify_drainage_cells [OF assms] obtain res where
    r: "classify_drainage clay sand = Inr res"
       "shape (drainage_class res) = shape clay" "shape (percolation_rate res) = shape clay" and
    c: "\<forall>i < nrows clay. \<forall>j < ncols clay.
          cell (drainage_class res) i j = last_match_class (cell clay i j) (cell sand i j) \<and>
          cell (percolation_rate res) i j =
            percolation_of_class (last_match_class (cell clay i j) (cell sand i j))"
    by blast
  have "\<forall>i < nrows clay. \<forall>j < ncols clay.
          ((cell (drainage_class res) i j = 1 \<and> cell (percolation_rate res) i j = 12) \<or>
           (cell (drainage_class res) i j = 2 \<and> cell (percolation_rate res) i j = 8) \<or>
           (cell (drainage_class res) i j = 3 \<and> cell (percolation_rate res) i j = 4) \<or>
           (cell (drainage_class res) i j = 4 \<and> cell (percolation_rate res) i j = 3) \<or>
           (cell (drainage_class res) i j = 0 \<and> cell (percolation_rate res) i j = 0)) \<and>
          (first_match_class (cell clay i j) (cell sand i j) = None \<longrightarrow>
             cell (drainage_class res) i j = 0 \<and> cell (percolation_rate res) i j = 0)"
  proof (intro allI impI)
    fix i j assume ij: "i < nrows clay" "j < ncols clay"
    let ?c = "cell clay i j" and ?s = "cell sand i j"
    have e: "cell (drainage_class res) i j = last_match_class ?c ?s"
            "cell (percolation_rate res) i j = percolation_of_class (last_match_class ?c ?s)"
      using c ij by simp_all
    have z: "first_match_class ?c ?s = None \<longrightarrow>
               last_match_class ?c ?s = 0 \<and> percolation_of_class (last_match_class ?c ?s) = 0"
      by (simp add: no_rule_class_zero percolation_of_class_def)
    show "((cell (drainage_class res) i j = 1 \<and> cell (percolation_rate res) i j = 12) \<or>
           (cell (drainage_class res) i j = 2 \<and> cell (percolation_rate res) i j = 8) \<or>
           (cell (drainage_class res) i j = 3 \<and> cell (percolation_rate res) i j = 4) \<or>
           (cell (drainage_class res) i j = 4 \<and> cell (percolation_rate res) i j = 3) \<or>
           (cell (drainage_class res) i j = 0 \<and> cell (percolation_rate res) i j = 0)) \<and>
          (first_match_class (cell clay i j) (cell sand i j) = None \<longrightarrow>
             cell (drainage_class res) i j = 0 \<and> cell (percolation_rate res) i j = 0)"
      unfolding e using percolation_follows_class [of ?c ?s] z by blast
  qed
  with r show ?thesis by simp
qed

text \<open>The theorem at a 1 by 2 grid whose first cell (clay 10, sand 20) no rule matches.\<close>

theorem classify_drainage_percolation_consistent_witness:
  "\<exists>res. classify_drainage \<lparr>nrows = 1, ncols = 2, cells = [10, 60]\<rparr>
                            \<lparr>nrows = 1, ncols = 2, cells = [20, 45]\<rparr> = Inr res \<and>
         cell (drainage_class res) 0 0 = 0 \<and> cell (percolation_rate res) 0 0 = 0"
proof -
  let ?clay = "\<lparr>nrows = 1, ncols = 2, cells = [10, 60 :: real]\<rparr>"
  let ?sand = "\<lparr>nrows = 1, ncols = 2, cells = [20, 45 :: real]\<rparr>"
  have "wf_grid ?clay" "wf_grid ?sand" "shape ?clay = shape ?sand"
    by (simp_all add: wf_grid_def shape_def)
  from classify_drainage_percolation_consistent [OF this] obtain res where
    r: "classify_drainage ?clay ?sand = Inr res" and
    c: "\<forall>i < nrows ?clay. \<forall>j < ncols ?clay.
          first_match_class (cell ?clay i j) (cell ?sand i j) = None \<longrightarrow>
             cell (drainage_class res) i j = 0 \<and> cell (percolation_rate res) i j = 0"
    by blast
  from c [rule_format, of 0 0]
  have "cell (drainage_class res) 0 0 = 0 \<and> cell (percolation_rate res) 0 0 = 0"
    by (simp add: cell_def first_match_class_def)
  with r show ?thesis by blast
qed

section \<open>Composite feasibility\<close>

lemma np_binop_wf:
  "np_binop f a b = Inr g \<Longrightarrow> wf_grid g"
  by (auto simp add: np_binop_def wf_grid_def length_concat_rows split: option.splits)

text \<open>
  Claim C2. For three grids of one shape \<open>compute_biophysical_suitability\<close> returns a
  grid of that shape whose cell \<open>(i, j)\<close> is true exactly when the slope cell is true, the
  drainage class is at most the threshold and the water-balance class is at least 2.
\<close>

theorem composite_is_cellwise_and:
  assumes "wf_grid slope" "wf_grid drainage" "wf_grid wb"
    and "shape drainage = shape slope" "shape wb = shape slope"
  shows "\<exists>g. compute_biophysical_suitability slope drainage wb thr = Inr g \<and>
           shape g = shape slope \<and>
           (\<forall>i < nrows slope. \<forall>j < ncols slope.
              cell g i j = (cell slope i j \<and> cell drainage i j \<le> thr \<and> cell wb i j \<ge> 2))"
proof -
  have sb: "nrows drainage = nrows slope" "ncols drainage = ncols slope"
           "nrows wb = nrows slope" "ncols wb = ncols slope"
    using assms(4,5) by (simp_all add: shape_def)
  have len: "length (cells slope) = nrows slope * ncols slope"
            "length (cells drainage) = nrows slope * ncols slope"
            "length (cells wb) = nrows slope * ncols slope"
    using assms(1-3) sb by (simp_all add: wf_grid_def)
  let ?t = "\<lparr>nrows = nrows slope, ncols = ncols slope,
             cells = map2 (\<and>) (cells slope) (map (\<lambda>d. d \<le> thr) (cells drainage))\<rparr>"
  let ?g = "\<lparr>nrows = nrows slope, ncols = ncols slope,
             cells = map2 (\<and>) (cells ?t) (map (\<lambda>w. w \<ge> 2) (cells wb))\<rparr>"
  have t: "np_binop (\<and>) slope (np_map (\<lambda>d. d \<le> thr) drainage) = Inr ?t"
    using np_binop_same_shape [of slope "np_map (\<lambda>d. d \<le> thr) drainage" "(\<and>)"]
    by (simp add: assms sb)
  have "wf_grid ?t" using t by (rule np_binop_wf)
  then have g: "np_binop (\<and>) ?t (np_map (\<lambda>w. w \<ge> 2) wb) = Inr ?g"
    using np_binop_same_shape [of ?t "np_map (\<lambda>w. w \<ge> 2) wb" "(\<and>)"]
    by (simp add: assms sb)
  have r: "compute_biophysical_suitability slope drainage wb thr = Inr ?g"
    using g by (simp add: compute_biophysical_suitability_def t bind_err_def)
  have "\<forall>i < nrows slope. \<forall>j < ncols slope.
          cell ?g i j = (cell slope i j \<and> cell drainage i j \<le> thr \<and> cell wb i j \<ge> 2)"
  proof (intro allI impI)
    fix i j assume "i < nrows slope" "j < ncols slope"
    then have "i * ncols slope + j < nrows slope * ncols slope" by (rule idx_lt)
    then show "cell ?g i j = (cell slope i j \<and> cell drainage i j \<le> thr \<and> cell wb i j \<ge> 2)"
      by (simp add: cell_def len sb)
  qed
  then show ?thesis unfolding r by (simp add: shape_def)
qed

text \<open>The theorem at 1 by 2 grids: the first cell passes, the second has drainage class 4.\<close>

theorem composite_is_cellwise_and_witness:
  "\<exists>g. compute_biophysical_suitability
          \<lparr>nrows = 1, ncols = 2, cells = [True, True]\<rparr>
          \<lparr>nrows = 1, ncols = 2, cells = [1, 4]\<rparr>
          \<lparr>nrows = 1, ncols = 2, cells = [2, 3]\<rparr> 3 = Inr g \<and>
        cell g 0 0 = True \<and> cell g 0 1 = False"
proof -
  let ?s = "\<lparr>nrows = 1, ncols = 2, cells = [True, True]\<rparr>"
  let ?d = "\<lparr>nrows = 1, ncols = 2, cells = [1, 4 :: int]\<rparr>"
  let ?w = "\<lparr>nrows = 1, ncols = 2, cells = [2, 3 :: int]\<rparr>"
  have "wf_grid ?s" "wf_grid ?d" "wf_grid ?w" "shape ?d = shape ?s" "shape ?w = shape ?s"
    by (simp_all add: wf_grid_def shape_def)
  from composite_is_cellwise_and [OF this, of 3] obtain g where
    r: "compute_biophysical_suitability ?s ?d ?w 3 = Inr g" and
    c: "\<forall>i < nrows ?s. \<forall>j < ncols ?s.
          cell g i j = (cell ?s i j \<and> cell ?d i j \<le> 3 \<and> cell ?w i j \<ge> 2)"
    by blast
  from c [rule_format, of 0 0] c [rule_format, of 0 1]
  have "cell g 0 0 = True \<and> cell g 0 1 = False"
    by (simp add: cell_def)
  with r show ?thesis by blast
qed

lemma np_binop_fails:
  "(np_binop f a b = Inl e) =
     (e = ValueError \<and> (bdim (nrows a) (nrows b) = None \<or> bdim (ncols a) (ncols b) = None))"
  by (auto simp add: np_binop_def split: option.splits)

lemma np_binop_returns:
  "np_binop f a b = Inr g \<Longrightarrow>
     bdim (nrows a) (nrows b) = Some (nrows g) \<and> bdim (ncols a) (ncols b) = Some (ncols g)"
  by (auto simp add: np_binop_def split: option.splits)

lemma bdim_chain:
  "axis_clash a b c = (\<forall>m. bdim a b = Some m \<longrightarrow> bdim m c = None)"
  by (auto simp add: bdim_def axis_clash_def)

text \<open>
  Claim C8 as stated fails: a 1 by 1 slope grid against 2 by 2 drainage and water-balance
  grids is not rejected. The single slope cell is broadcast over the four cells and a
  2 by 2 grid is returned.
\<close>

theorem composite_broadcast_counterexample:
  "shape \<lparr>nrows = 1, ncols = 1, cells = [True]\<rparr>
     \<noteq> shape \<lparr>nrows = 2, ncols = 2, cells = [1, 2, 3, 4 :: int]\<rparr> \<and>
   compute_biophysical_suitability
     \<lparr>nrows = 1, ncols = 1, cells = [True]\<rparr>
     \<lparr>nrows = 2, ncols = 2, cells = [1, 2, 3, 4]\<rparr>
     \<lparr>nrows = 2, ncols = 2, cells = [3, 3, 1, 3]\<rparr> 3
   = Inr \<lparr>nrows = 2, ncols = 2, cells = [True, True, False, False]\<rparr>"
  by (simp add: compute_biophysical_suitability_def np_binop_def bdim_def bat_def cell_def
      bind_err_def np_map_def shape_def eval_nat_numeral)

text \<open>
  Claim C8, as amended. \<open>compute_biophysical_suitability\<close> fails with \<open>ValueError\<close>,
  returning no grid, exactly when in some axis two of the three grids have different
  lengths and neither length is 1. Grids whose shapes differ only through axes of length 1
  are broadcast and a grid is returned.
\<close>

theorem composite_shape_errors:
  "(axis_clash (nrows slope) (nrows drainage) (nrows wb) \<or>
    axis_clash (ncols slope) (ncols drainage) (ncols wb)
      \<longrightarrow> compute_biophysical_suitability slope drainage wb thr = Inl ValueError) \<and>
   (\<not> (axis_clash (nrows slope) (nrows drainage) (nrows wb) \<or>
        axis_clash (ncols slope) (ncols drainage) (ncols wb))
      \<longrightarrow> (\<exists>g. compute_biophysical_suitability slope drainage wb thr = Inr g))"
proof (cases "np_binop (\<and>) slope (np_map (\<lambda>d. d \<le> thr) drainage)")
  case (Inl e)
  then have "e = ValueError" and
    "bdim (nrows slope) (nrows drainage) = None \<or> bdim (ncols slope) (ncols drainage) = None"
    by (simp_all add: np_binop_fails)
  then show ?thesis
    using Inl by (auto simp add: compute_biophysical_suitability_def bind_err_def bdim_chain)
next
  case (Inr t)
  from np_binop_returns [OF Inr]
  have t: "bdim (nrows slope) (nrows drainage) = Some (nrows t)"
          "bdim (ncols slope) (ncols drainage) = Some (ncols t)"
    by simp_all
  have r: "compute_biophysical_suitability slope drainage wb thr
             = np_binop (\<and>) t (np_map (\<lambda>w. w \<ge> 2) wb)"
    by (simp add: compute_biophysical_suitability_def bind_err_def Inr)
  have c: "axis_clash (nrows slope) (nrows drainage) (nrows wb) = (bdim (nrows t) (nrows wb) = None)"
          "axis_clash (ncols slope) (ncols drainage) (ncols wb) = (bdim (ncols t) (ncols wb) = None)"
    by (simp_all add: bdim_chain t)
  show ?thesis
  proof (cases "np_binop (\<and>) t (np_map (\<lambda>w. w \<ge> 2) wb)")
    case (Inl e)
    then show ?thesis unfolding r c by (simp add: np_binop_fails)
  next
    case (Inr g)
    then show ?thesis unfolding r c using np_binop_returns [OF Inr] by simp
  qed
qed

text \<open>
  The theorem at a 3 by 2 drainage grid against 2 by 2 grids (rejected) and at the 1 by 1
  slope grid against 2 by 2 grids (accepted).
\<close>

theorem composite_shape_errors_witness:
  "compute_biophysical_suitability
     \<lparr>nrows = 2, ncols = 2, cells = [True, True, True, True]\<rparr>
     \<lparr>nrows = 3, ncols = 2, cells = [1, 2, 3, 4, 1, 2]\<rparr>
     \<lparr>nrows = 2, ncols = 2, cells = [3, 3, 1, 3]\<rparr> 3 = Inl ValueError \<and>
   (\<exists>g. compute_biophysical_suitability
          \<lparr>nrows = 1, ncols = 1, cells = [True]\<rparr>
          \<lparr>nrows = 2, ncols = 2, cells = [1, 2, 3, 4]\<rparr>
          \<lparr>nrows = 2, ncols = 2, cells = [3, 3, 1, 3]\<rparr> 3 = Inr g)"
  using composite_shape_errors
          [of "\<lparr>nrows = 2, ncols = 2, cells = [True, True, True, True]\<rparr>"
              "\<lparr>nrows = 3, ncols = 2, cells = [1, 2, 3, 4, 1, 2]\<rparr>"
              "\<lparr>nrows = 2, ncols = 2, cells = [3, 3, 1, 3]\<rparr>" 3]
        composite_shape_errors
          [of "\<lparr>nrows = 1, ncols = 1, cells = [True]\<rparr>"
              "\<lparr>nrows = 2, ncols = 2, cells = [1, 2, 3, 4]\<rparr>"
              "\<lparr>nrows = 2, ncols = 2, cells = [3, 3, 1, 3]\<rparr>" 3]
  by (simp add: axis_clash_def)

section \<open>Water-balance suitability\<close>

lemma length_filter_mono:
  "(\<And>x. x \<in> set xs \<Longrightarrow> P x \<Longrightarrow> Q x) \<Longrightarrow> length (filter P xs) \<le> length (filter Q xs)"
  by (induction xs) auto

lemma count_suitable_antitone:
  assumes "t1 \<le> t2"
  shows "length (filter (\<lambda>b. b) (map (\<lambda>wb. assess_awd_suitability_dekad wb t2) xs))
       \<le> length (filter (\<lambda>b. b) (map (\<lambda>wb. assess_awd_suitability_dekad wb t1) xs))"
proof -
  have "length (filter (\<lambda>wb. assess_awd_suitability_dekad wb t2) xs)
      \<le> length (filter (\<lambda>wb. assess_awd_suitability_dekad wb t1) xs)"
    using assms by (intro length_filter_mono) (simp add: assess_awd_suitability_dekad_def)
  then show ?thesis by (simp add: filter_map comp_def)
qed

text \<open>
  Claim C3, as amended. For every series, season window and thresholds \<open>t1 < t2\<close>, the
  fraction returned with \<open>deficit_threshold_mm = t1\<close> is greater than or equal to the
  fraction returned with \<open>t2\<close>: the band \<open>[threshold, 0)\<close> widens as the threshold
  decreases.
\<close>

theorem suitability_fraction_antitone:
  assumes "t1 < t2"
  shows "fst (fst (compute_awd_suitability_index series s e ef el t2))
       \<le> fst (fst (compute_awd_suitability_index series s e ef el t1))"
proof (cases "s + ef \<ge> e - el")
  case True
  then show ?thesis by (simp add: compute_awd_suitability_index_def)
next
  case False
  let ?xs = "py_slice series (s + ef) (e - el + 1)"
  have "real (length (filter (\<lambda>b. b) (map (\<lambda>wb. assess_awd_suitability_dekad wb t2) ?xs)))
      \<le> real (length (filter (\<lambda>b. b) (map (\<lambda>wb. assess_awd_suitability_dekad wb t1) ?xs)))"
    using count_suitable_antitone [of t1 t2 ?xs] assms by simp
  then show ?thesis
    using False by (simp add: compute_awd_suitability_index_def Let_def divide_right_mono)
qed

text \<open>
  The theorem at a six-dekad series whose active window holds two dekads at -60 mm:
  fraction 0 at -50, fraction 1 at -70.
\<close>

theorem suitability_fraction_antitone_witness:
  "(-70 :: real) < -50 \<and>
   fst (fst (compute_awd_suitability_index [0, 0, 0, -60, -60, 0] 1 5 2 1 (-50))) = 0 \<and>
   fst (fst (compute_awd_suitability_index [0, 0, 0, -60, -60, 0] 1 5 2 1 (-70))) = 1"
  using suitability_fraction_antitone
          [where ?t1.0 = "-70" and ?t2.0 = "-50" and series = "[0, 0, 0, -60, -60, 0]"
             and s = 1 and e = 5 and ef = 2 and el = 1]
  by (simp add: compute_awd_suitability_index_def py_slice_def assess_awd_suitability_dekad_def)

text \<open>
  Claim C3 as stated fails: with \<open>t1 = -70 < t2 = -50 < 0\<close> the fraction at \<open>t1\<close> is 1
  and the fraction at \<open>t2\<close> is 0, so the fraction at \<open>t1\<close> is not below the one at
  \<open>t2\<close>.
\<close>

theorem suitability_fraction_monotone_counterexample:
  "(-70 :: real) < -50 \<and> (-50 :: real) < 0 \<and>
   \<not> (fst (fst (compute_awd_suitability_index [0, 0, 0, -60, -60, 0] 1 5 2 1 (-70)))
        \<le> fst (fst (compute_awd_suitability_index [0, 0, 0, -60, -60, 0] 1 5 2 1 (-50))))"
  by (simp add: compute_awd_suitability_index_def py_slice_def assess_awd_suitability_dekad_def)

lemma py_slice_Nil [simp]: "py_slice [] a b = []"
  by (simp add: py_slice_def)

text \<open>
  Claim C7, as amended. When \<open>season_start + exclude_first \<ge> season_end - exclude_last\<close>
  the function returns \<open>(0.0, 0, 0)\<close> and logs the warning. For an empty series it
  returns \<open>(0.0, 0, 0)\<close> for every window, and it logs the warning exactly when the window
  is degenerate in that sense. The function has no failing branch.
\<close>

theorem degenerate_window_and_empty_series:
  "(s + ef \<ge> e - el \<longrightarrow>
      compute_awd_suitability_index series s e ef el thr
        = ((0, 0, 0), [''Active season window too small after exclusions''])) \<and>
   fst (compute_awd_suitability_index [] s e ef el thr) = (0, 0, 0) \<and>
   ((snd (compute_awd_suitability_index [] s e ef el thr) \<noteq> []) = (s + ef \<ge> e - el))"
  by (simp add: compute_awd_suitability_index_def Let_def)

text \<open>The theorem at season 1..4 with the default exclusions: active window 3..3.\<close>

theorem degenerate_window_and_empty_series_witness:
  "compute_awd_suitability_index [-10, -20, -30] 1 4 2 1 (-50)
     = ((0, 0, 0), [''Active season window too small after exclusions''])"
  using degenerate_window_and_empty_series
          [where s = 1 and ef = 2 and e = 4 and el = 1 and series = "[-10, -20, -30]"
             and thr = "-50"]
  by simp

text \<open>
  Claim C7 as stated fails: for the empty series and the season 1..10 the result is
  \<open>(0.0, 0, 0)\<close> but no warning is logged; the guard \<open>num_total > 0\<close> handles the
  empty slice silently.
\<close>

theorem empty_series_no_warning_counterexample:
  "compute_awd_suitability_index [] 1 10 2 1 (-50) = ((0, 0, 0), [])"
  by (simp add: compute_awd_suitability_index_def)

text \<open>
  Claim C4 at the fractions 1.5 and -0.5. \<open>classify_suitability_from_fraction\<close>, which
  the threshold sweep calls, returns the classes 3 and 1 for them;
  \<open>classify_awd_suitability\<close> in utils rejects both with \<open>ValueError\<close>.
\<close>

theorem classify_from_fraction_accepts_out_of_range:
  "classify_suitability_from_fraction (3 / 2) (66 / 100) (33 / 100) = 3 \<and>
   classify_suitability_from_fraction (- 1 / 2) (66 / 100) (33 / 100) = 1 \<and>
   classify_awd_suitability (3 / 2) None = Inl ValueError \<and>
   classify_awd_suitability (- 1 / 2) None = Inl ValueError"
  by (simp add: classify_suitability_from_fraction_def classify_awd_suitability_def)

text \<open>
  \<open>classify_awd_suitability\<close> does what the claim says: it rejects every fraction outside
  [0, 1], and inside it returns the class that \<open>classify_suitability_from_fraction\<close>
  computes.
\<close>

lemma classify_awd_suitability_rejects:
  "f < 0 \<or> f > 1 \<Longrightarrow> classify_awd_suitability f th = Inl ValueError"
  by (auto simp add: classify_awd_suitability_def)

lemma classify_awd_suitability_in_range:
  assumes "0 \<le> f" "f \<le> 1"
  shows "classify_awd_suitability f (Some [''high'' \<mapsto> h, ''moderate'' \<mapsto> m])
           = Inr (if f \<ge> h then 3 else if f \<ge> m then 2 else 1)"
  using assms by (simp add: classify_awd_suitability_def)

lemma classify_awd_suitability_default:
  assumes "0 \<le> f" "f \<le> 1"
  shows "classify_awd_suitability f None
           = Inr (if f \<ge> 66 / 100 then 3 else if f \<ge> 33 / 100 then 2 else 1)"
  using assms by (simp add: classify_awd_suitability_def default_thresholds_def)

lemma classify_awd_suitability_agrees:
  assumes "0 \<le> f" "f \<le> 1"
  shows "classify_awd_suitability f (Some [''high'' \<mapsto> h, ''moderate'' \<mapsto> m])
           = Inr (classify_suitability_from_fraction f h m)"
  using assms by (simp add: classify_awd_suitability_def classify_suitability_from_fraction_def)

section \<open>Extension cost\<close>

text \<open>
  Claim C6. For a fragmentation index in [0, 1], an area of at least 0 and a positive base
  cost, \<open>estimate_extension_cost\<close> returns \<open>base * area * (1 + 3.8 * index)\<close>; it does
  not decrease when the index grows with the area fixed, nor when the area grows with the
  index fixed; at index 0 it is \<open>base * area\<close>.
\<close>

theorem extension_cost_formula:
  assumes "0 \<le> f1" "f1 \<le> f2" "f2 \<le> 1" "0 \<le> a1" "a1 \<le> a2" "0 < b"
  shows "estimate_extension_cost f1 a1 b = b * a1 * (1 + 3.8 * f1) \<and>
         estimate_extension_cost f1 a1 b \<le> estimate_extension_cost f2 a1 b \<and>
         estimate_extension_cost f1 a1 b \<le> estimate_extension_cost f1 a2 b \<and>
         estimate_extension_cost 0 a1 b = b * a1"
proof -
  have 1: "a1 * b * (1 + 3.8 * f1) \<le> a1 * b * (1 + 3.8 * f2)"
    using assms by (intro mult_left_mono) simp_all
  have 2: "a1 * (b * (1 + 3.8 * f1)) \<le> a2 * (b * (1 + 3.8 * f1))"
    using assms by (intro mult_right_mono) simp_all
  show ?thesis using 1 2 by (simp add: estimate_extension_cost_def mult_ac)
qed

text \<open>The theorem at index 1/2 and 1, area 10 and 20, base cost 1000.\<close>

theorem extension_cost_formula_witness:
  "estimate_extension_cost (1 / 2) 10 1000 = 29000 \<and>
   estimate_extension_cost (1 / 2) 10 1000 \<le> estimate_extension_cost 1 10 1000 \<and>
   estimate_extension_cost (1 / 2) 10 1000 \<le> estimate_extension_cost (1 / 2) 20 1000 \<and>
   estimate_extension_cost 0 10 1000 = 10000"
  using extension_cost_formula
          [where ?f1.0 = "1 / 2" and ?f2.0 = 1 and ?a1.0 = 10 and ?a2.0 = 20 and b = 1000]
  by simp

section \<open>Fragmentation index\<close>

lemma label_post_Max:
  assumes "label_post lab n" "0 < n"
  shows "cells lab \<noteq> []" "Max (set (cells lab)) = n"
proof -
  from assms(1) have a: "\<forall>k \<in> {1..n}. k \<in> set (cells lab)"
    and b: "\<forall>v \<in> set (cells lab). v \<le> n"
    unfolding label_post_def by blast+
  from assms(2) have "n \<in> {1..n}" by simp
  with a have n: "n \<in> set (cells lab)" by blast
  then show "cells lab \<noteq> []" by auto
  show "Max (set (cells lab)) = n"
  proof (rule Max_eqI)
    show "finite (set (cells lab))" by simp
    show "n \<in> set (cells lab)" by (rule n)
    fix y assume "y \<in> set (cells lab)"
    then show "y \<le> n" using b by blast
  qed
qed


lemma sum_list_le_bound:
  "(\<And>x. x \<in> set xs \<Longrightarrow> x \<le> m) \<Longrightarrow> sum_list xs \<le> length xs * (m :: nat)"
  by (induction xs) (auto simp add: add_mono)

lemma sum_list_constant:
  "(\<And>x. x \<in> set xs \<Longrightarrow> x = m) \<Longrightarrow> sum_list xs = length xs * (m :: nat)"
  by (induction xs) auto

lemma count_list_pos: "x \<in> set xs \<Longrightarrow> 0 < count_list xs x"
  by (induction xs) auto

lemma patch_sizes_label_post:
  assumes "label_post lab n" "0 < n"
  shows "patch_sizes_of lab = map (count_list (cells lab)) [Suc 0..<Suc n]"
proof -
  have "bincount (cells lab) = map (count_list (cells lab)) [0..<Suc n]"
    unfolding bincount_def using label_post_Max [OF assms] by (simp only: if_False)
  then show ?thesis
    unfolding patch_sizes_of_def by (simp only: drop_map drop_upt) simp
qed

lemma patch_sizes_positive:
  assumes "label_post lab n" "0 < n"
  shows "patch_sizes_of lab \<noteq> []" "\<forall>x \<in> set (patch_sizes_of lab). 0 < x"
        "length (patch_sizes_of lab) = n"
proof -
  note ps = patch_sizes_label_post [OF assms]
  show len: "length (patch_sizes_of lab) = n"
    unfolding ps by (simp only: length_map length_upt diff_Suc_Suc diff_zero)
  then show "patch_sizes_of lab \<noteq> []" using assms(2) by auto
  from assms(1) have a: "\<forall>k \<in> {1..n}. k \<in> set (cells lab)"
    unfolding label_post_def by blast
  show "\<forall>x \<in> set (patch_sizes_of lab). 0 < x"
  proof
    fix x assume "x \<in> set (patch_sizes_of lab)"
    then obtain k where k: "k \<in> set [Suc 0..<Suc n]" "x = count_list (cells lab) k"
      unfolding ps by (auto simp only: set_map)
    from k(1) have "k \<in> {1..n}" by (simp del: upt_Suc)
    with a have "k \<in> set (cells lab)" by blast
    then show "0 < x" unfolding k(2) by (rule count_list_pos)
  qed
qed

lemma mean_over_max:
  fixes ps :: "nat list"
  assumes "ps \<noteq> []" "\<forall>x \<in> set ps. 0 < x"
  shows "0 < Max (set ps)"
    and "0 < real (sum_list ps) / real (length ps) / real (Max (set ps))"
    and "real (sum_list ps) / real (length ps) / real (Max (set ps)) \<le> 1"
    and "(\<forall>a \<in> set ps. \<forall>b \<in> set ps. a = b) \<longrightarrow>
           real (sum_list ps) / real (length ps) / real (Max (set ps)) = 1"
proof -
  let ?m = "Max (set ps)"
  have mem: "?m \<in> set ps" using assms(1) by (intro Max_in) simp_all
  then show m: "0 < ?m" using assms(2) by blast
  have len: "0 < length ps" using assms(1) by simp
  have "?m \<le> sum_list ps" using mem by (intro member_le_sum_list) simp_all
  then have s: "0 < sum_list ps" using m by simp
  then show "0 < real (sum_list ps) / real (length ps) / real ?m"
    using len m by simp
  have "sum_list ps \<le> length ps * ?m" by (rule sum_list_le_bound) simp
  then have "real (sum_list ps) \<le> real (length ps * ?m)"
    by (simp only: of_nat_le_iff)
  then have "real (sum_list ps) \<le> real (length ps) * real ?m"
    by (simp only: of_nat_mult)
  then show "real (sum_list ps) / real (length ps) / real ?m \<le> 1"
    using len m by (simp add: divide_le_eq mult.commute)
  show "(\<forall>a \<in> set ps. \<forall>b \<in> set ps. a = b) \<longrightarrow>
           real (sum_list ps) / real (length ps) / real ?m = 1"
  proof
    assume "\<forall>a \<in> set ps. \<forall>b \<in> set ps. a = b"
    then have "\<And>x. x \<in> set ps \<Longrightarrow> x = ?m" using mem by blast
    then have "sum_list ps = length ps * ?m" by (rule sum_list_constant)
    then have "real (sum_list ps) = real (length ps) * real ?m"
      by (simp only: of_nat_mult)
    then show "real (sum_list ps) / real (length ps) / real ?m = 1"
      using len m by simp
  qed
qed


text \<open>
  Claim C5, as amended. For a grid with at least one patch (\<open>label\<close> reports \<open>n > 0\<close>
  components, each marking at least one cell) \<open>compute_fragmentation_index\<close> returns,
  \<open>fragmentation_index\<close> is \<open>mean_patch_size / max_patch_size\<close> and lies in (0, 1], and
  when all patches have equal size it equals 1.
\<close>

theorem fragmentation_index_bounds:
  assumes "label m = (lab, n)" "0 < n" "label_post lab n"
  shows "\<exists>r. compute_fragmentation_index label m = Inr r \<and>
           n_patches r = n \<and>
           fragmentation_index r = mean_patch_size r / real (max_patch_size r) \<and>
           0 < fragmentation_index r \<and> fragmentation_index r \<le> 1 \<and>
           ((\<forall>a \<in> set (patch_sizes_of lab). \<forall>b \<in> set (patch_sizes_of lab). a = b)
              \<longrightarrow> fragmentation_index r = 1)"
proof -
  let ?ps = "patch_sizes_of lab"
  let ?mean = "real (sum_list ?ps) / real (length ?ps)"
  let ?r = "\<lparr>n_patches = n, mean_patch_size = ?mean, max_patch_size = Max (set ?ps),
            min_patch_size = Min (set ?ps),
            fragmentation_index = ?mean / real (Max (set ?ps)),
            total_suitable_cells = sum_list ?ps\<rparr>"
  note p = patch_sizes_positive [OF assms(3,2)]
  note q = mean_over_max [OF p(1,2)]
  have r: "compute_fragmentation_index label m = Inr ?r"
    using assms(1,2) p(1) q(1) by (simp add: compute_fragmentation_index_def Let_def)
  show ?thesis
  proof (intro exI conjI)
    show "compute_fragmentation_index label m = Inr ?r" by (rule r)
    show "n_patches ?r = n" by simp
    show "fragmentation_index ?r = mean_patch_size ?r / real (max_patch_size ?r)" by simp
    show "0 < fragmentation_index ?r" using q(2) by simp
    show "fragmentation_index ?r \<le> 1" using q(3) by simp
    show "(\<forall>a \<in> set ?ps. \<forall>b \<in> set ?ps. a = b) \<longrightarrow> fragmentation_index ?r = 1"
      using q(4) by (simp only: frag_result.simps)
  qed
qed

text \<open>A 1 by 3 grid with two patches of one cell each, labelled 1 and 2.\<close>

lemma two_unit_patches:
  "label_post \<lparr>nrows = 1, ncols = 3, cells = [1, 0, 2]\<rparr> 2"
  "patch_sizes_of \<lparr>nrows = 1, ncols = 3, cells = [1, 0, 2]\<rparr> = [1, 1]"
proof -
  show "label_post \<lparr>nrows = 1, ncols = 3, cells = [1, 0, 2]\<rparr> 2"
    by (auto simp add: label_post_def wf_grid_def)
  show "patch_sizes_of \<lparr>nrows = 1, ncols = 3, cells = [1, 0, 2]\<rparr> = [1, 1]"
    by (simp add: patch_sizes_of_def bincount_def eval_nat_numeral)
qed

text \<open>The theorem at the grid with two patches of one cell each.\<close>

theorem fragmentation_index_bounds_witness:
  "\<exists>r. compute_fragmentation_index (\<lambda>_. (\<lparr>nrows = 1, ncols = 3, cells = [1, 0, 2]\<rparr>, 2))
          \<lparr>nrows = 1, ncols = 3, cells = [True, False, True]\<rparr> = Inr r \<and>
        n_patches r = 2 \<and> fragmentation_index r = 1"
proof -
  let ?lab = "\<lparr>nrows = 1, ncols = 3, cells = [1, 0, 2 :: nat]\<rparr>"
  let ?m = "\<lparr>nrows = 1, ncols = 3, cells = [True, False, True]\<rparr>"
  have h: "(\<lambda>_. (?lab, 2 :: nat)) ?m = (?lab, 2)" by simp
  from fragmentation_index_bounds
         [of "\<lambda>_. (?lab, 2)" ?m ?lab 2, OF h zero_less_numeral two_unit_patches(1)]
  obtain r where
    r: "compute_fragmentation_index (\<lambda>_. (?lab, 2)) ?m = Inr r" "n_patches r = 2" and
    e: "(\<forall>a \<in> set (patch_sizes_of ?lab). \<forall>b \<in> set (patch_sizes_of ?lab). a = b)
          \<longrightarrow> fragmentation_index r = 1"
    by blast
  have "\<forall>a \<in> set (patch_sizes_of ?lab). \<forall>b \<in> set (patch_sizes_of ?lab). a = b"
    unfolding two_unit_patches(2) by simp
  with e have "fragmentation_index r = 1" by blast
  with r show ?thesis by blast
qed

text \<open>
  Claim C5 as stated fails in its second half: two patches of equal size 1 give the index
  1, not \<open>1 / patchCount = 1 / 2\<close>.
\<close>

theorem equal_patches_counterexample:
  "label_post \<lparr>nrows = 1, ncols = 3, cells = [1, 0, 2]\<rparr> 2 \<and>
   patch_sizes_of \<lparr>nrows = 1, ncols = 3, cells = [1, 0, 2]\<rparr> = [1, 1] \<and>
   compute_fragmentation_index (\<lambda>_. (\<lparr>nrows = 1, ncols = 3, cells = [1, 0, 2]\<rparr>, 2))
       \<lparr>nrows = 1, ncols = 3, cells = [True, False, True]\<rparr>
     = Inr \<lparr>n_patches = 2, mean_patch_size = 1, max_patch_size = 1, min_patch_size = 1,
            fragmentation_index = 1, total_suitable_cells = 2\<rparr> \<and>
   (1 :: real) \<noteq> 1 / real 2"
proof -
  have "compute_fragmentation_index (\<lambda>_. (\<lparr>nrows = 1, ncols = 3, cells = [1, 0, 2]\<rparr>, 2))
       \<lparr>nrows = 1, ncols = 3, cells = [True, False, True]\<rparr>
     = Inr \<lparr>n_patches = 2, mean_patch_size = 1, max_patch_size = 1, min_patch_size = 1,
            fragmentation_index = 1, total_suitable_cells = 2\<rparr>"
    unfolding compute_fragmentation_index_def prod.case Let_def two_unit_patches(2)
    by simp
  then show ?thesis using two_unit_patches by simp
qed

section \<open>Suitability clusters\<close>

lemma where_eq_Nil: "(where_eq lab k = []) = (k \<notin> set (cells lab))"
  by (auto simp add: where_eq_def filter_empty_conv in_set_conv_nth)

lemma cluster_loop_result:
  assumes "\<forall>k \<in> set ids. mn \<le> int (count_list (cells lab) k) \<longrightarrow> k \<in> set (cells lab)"
  shows "cluster_loop lab mn ids acc =
           Inr (acc @ map (\<lambda>k. cluster_entry k (count_list (cells lab) k) (where_eq lab k))
                        (filter (\<lambda>k. mn \<le> int (count_list (cells lab) k)) ids))"
  using assms
proof (induction ids arbitrary: acc)
  case Nil
  then show ?case by simp
next
  case (Cons k ids)
  from Cons.prems have rest:
    "\<forall>k \<in> set ids. mn \<le> int (count_list (cells lab) k) \<longrightarrow> k \<in> set (cells lab)"
    by simp
  show ?case
  proof (cases "int (count_list (cells lab) k) < mn")
    case True
    then show ?thesis using Cons.IH [OF rest] by simp
  next
    case False
    then have "k \<in> set (cells lab)" using Cons.prems by simp
    then have "where_eq lab k \<noteq> []" by (simp add: where_eq_Nil)
    then show ?thesis using False Cons.IH [OF rest] by (simp add: Let_def)
  qed
qed

text \<open>
  Claim C9 where every component is filtered out. A grid with one component of one cell
  and \<open>min_cluster_size = 100\<close>, and a grid with no component at all: the loop appends
  no row, the frame built from the empty list has no column \<open>size_pixels\<close>, and
  \<open>sort_values\<close> raises \<open>KeyError\<close> instead of returning an empty table.
\<close>

theorem clusters_all_filtered_keyerror:
  "identify_suitability_clusters (\<lambda>_. (\<lparr>nrows = 1, ncols = 1, cells = [1]\<rparr>, 1)) sort_desc
       \<lparr>nrows = 1, ncols = 1, cells = [True]\<rparr> 100 = Inl KeyError \<and>
   identify_suitability_clusters (\<lambda>_. (\<lparr>nrows = 1, ncols = 1, cells = [0]\<rparr>, 0)) sort_desc
       \<lparr>nrows = 1, ncols = 1, cells = [False]\<rparr> 100 = Inl KeyError"
  by (simp add: identify_suitability_clusters_def bind_err_def DataFrame_def
      sort_values_size_desc_def)

text \<open>
  In general, with \<open>label\<close> marking every component: the function raises \<open>KeyError\<close>
  exactly when every component is below \<open>min_cluster_size\<close>, and otherwise returns the
  ordered rows of the remaining components.
\<close>

lemma identify_clusters_result:
  assumes "label m = (lab, n)" "label_post lab n"
  shows "identify_suitability_clusters label sort_desc m mn =
           (if \<forall>k \<in> {1..n}. int (count_list (cells lab) k) < mn then Inl KeyError
            else Inr \<lparr>columns = cluster_columns,
                      table_rows =
                        sort_desc
                          (map (\<lambda>k. cluster_entry k (count_list (cells lab) k) (where_eq lab k))
                             (filter (\<lambda>k. mn \<le> int (count_list (cells lab) k))
                                [1..<Suc n]))\<rparr>)"
proof -
  from assms(2) have a: "\<forall>k \<in> {1..n}. k \<in> set (cells lab)"
    unfolding label_post_def by blast
  have s: "set [1..<Suc n] = {1..n}" by (simp only: set_upt atLeastLessThanSuc_atLeastAtMost)
  have "\<forall>k \<in> set [1..<Suc n]. mn \<le> int (count_list (cells lab) k) \<longrightarrow> k \<in> set (cells lab)"
    unfolding s using a by blast
  note loop = cluster_loop_result [OF this, of "[]"]
  let ?keep = "filter (\<lambda>k. mn \<le> int (count_list (cells lab) k)) [1..<Suc n]"
  have e: "(?keep = []) = (\<forall>k \<in> {1..n}. int (count_list (cells lab) k) < mn)"
    unfolding filter_empty_conv s by (simp only: not_le)
  show ?thesis
  proof (cases "?keep = []")
    case True
    then show ?thesis
      using e unfolding identify_suitability_clusters_def assms(1) prod.case loop
      by (simp add: bind_err_def DataFrame_def sort_values_size_desc_def del: upt_Suc)
  next
    case False
    then show ?thesis
      using e unfolding identify_suitability_clusters_def assms(1) prod.case loop
      by (simp add: bind_err_def DataFrame_def sort_values_size_desc_def cluster_columns_def
          del: upt_Suc)
  qed
qed

lemma cluster_entry_fields [simp]:
  "cluster_id (cluster_entry k sz ps) = k" "size_pixels (cluster_entry k sz ps) = sz"
  by (simp_all add: cluster_entry_def Let_def)

text \<open>
  A returned table is in descending order of size and has exactly one row for each
  component of size at least \<open>min_cluster_size\<close>, carrying that component's size.
\<close>

lemma identify_clusters_table:
  assumes "label m = (lab, n)" "label_post lab n"
    and "\<And>results. sorts_by_size_desc sort_desc results"
    and "identify_suitability_clusters label sort_desc m mn = Inr df"
  shows "sorted (rev (map size_pixels (table_rows df)))"
    and "distinct (map cluster_id (table_rows df))"
    and "set (map cluster_id (table_rows df))
           = {k \<in> {1..n}. mn \<le> int (count_list (cells lab) k)}"
    and "\<forall>r \<in> set (table_rows df). size_pixels r = count_list (cells lab) (cluster_id r)"
proof -
  let ?keep = "filter (\<lambda>k. mn \<le> int (count_list (cells lab) k)) [1..<Suc n]"
  let ?rows = "map (\<lambda>k. cluster_entry k (count_list (cells lab) k) (where_eq lab k)) ?keep"
  have t: "table_rows df = sort_desc ?rows"
    using assms(4)
    unfolding identify_clusters_result [of label m lab n sort_desc mn, OF assms(1,2)]
    by (auto split: if_splits)
  from assms(3) [of ?rows] have perm: "mset (sort_desc ?rows) = mset ?rows"
    and desc: "sorted (rev (map size_pixels (sort_desc ?rows)))"
    unfolding sorts_by_size_desc_def by blast+
  have ids: "map cluster_id ?rows = ?keep" by (simp add: comp_def del: upt_Suc)
  have st: "set (table_rows df) = set ?rows" unfolding t using perm by (rule mset_eq_setD)
  show "sorted (rev (map size_pixels (table_rows df)))"
    unfolding t by (rule desc)
  have "mset (map cluster_id (table_rows df)) = mset (map cluster_id ?rows)"
    unfolding t using perm by (simp only: mset_map)
  then have pk: "mset (map cluster_id (table_rows df)) = mset ?keep" by (simp only: ids)
  have dk: "distinct ?keep" by (simp only: distinct_filter distinct_upt)
  show "distinct (map cluster_id (table_rows df))"
    using mset_eq_imp_distinct_iff [OF pk] dk by blast
  have "set (map cluster_id (table_rows df)) = set ?keep"
    using pk by (rule mset_eq_setD)
  also have "\<dots> = {k \<in> {1..n}. mn \<le> int (count_list (cells lab) k)}"
    by (auto simp del: upt_Suc)
  finally show "set (map cluster_id (table_rows df))
           = {k \<in> {1..n}. mn \<le> int (count_list (cells lab) k)}" .
  show "\<forall>r \<in> set (table_rows df). size_pixels r = count_list (cells lab) (cluster_id r)"
    unfolding st by (auto simp del: upt_Suc)
qed

text \<open>
  \<open>sorts_by_size_desc\<close> can be met: sorting the reversed rows by ascending size with a
  stable sort and reversing the result is one such ordering.
\<close>

lemma stable_sort_sorts_by_size_desc:
  "sorts_by_size_desc (\<lambda>rows. rev (sort_key size_pixels (rev rows))) results"
  by (simp add: sorts_by_size_desc_def rev_map)

end
